theory Spec2Isabelle
  imports Main "HOL-Library.Log_Nat"
begin

section \<open>JavaScript values reaching the formatters\<close>

text \<open>
  A formatter receives a number, \<^verbatim>\<open>null\<close> or \<^verbatim>\<open>undefined\<close>; a number is NaN or
  finite. The finite numbers of \<^verbatim>\<open>frontend/utils/dateFormatter.js\<close> are Unix timestamps:
  integers (counts of seconds) of the safe-integer range, on which every double operation
  used there (subtraction, absolute value, multiplication by 1000, the floor of a quotient
  by 60, 3600, 86400 or 1000) is exact, so that module computes on \<^typ>\<open>int\<close>. The
  finite numbers of the currency formatter are doubles, given by their rational value.
\<close>

datatype 'a jsnum = NaN | Fin 'a

datatype 'a jsval = Undefined | Null | Num "'a jsnum"

text \<open>\<^verbatim>\<open>!x\<close> is the negation of ToBoolean: undefined, null, NaN and 0 are falsy.\<close>

fun truthy :: "'a::zero jsval \<Rightarrow> bool" where
  "truthy Undefined = False"
| "truthy Null = False"
| "truthy (Num NaN) = False"
| "truthy (Num (Fin n)) = (n \<noteq> 0)"

text \<open>\<^verbatim>\<open>Number(x)\<close>: undefined becomes NaN, null becomes 0, a number is itself.\<close>

fun Number :: "'a::zero jsval \<Rightarrow> 'a jsnum" where
  "Number Undefined = NaN"
| "Number Null = Fin 0"
| "Number (Num x) = x"

text \<open>\<^verbatim>\<open>x !== k\<close> for a numeric literal k: false only when x is the number k.\<close>

definition strict_neq :: "int jsval \<Rightarrow> int \<Rightarrow> bool" where
  "strict_neq x k = (x \<noteq> Num (Fin k))"

text \<open>Arithmetic on numbers; NaN propagates, and every comparison with NaN is false.\<close>

fun js_minus :: "int jsnum \<Rightarrow> int jsnum \<Rightarrow> int jsnum" where
  "js_minus (Fin a) (Fin b) = Fin (a - b)"
| "js_minus _ _ = NaN"

fun js_times :: "int jsnum \<Rightarrow> int jsnum \<Rightarrow> int jsnum" where
  "js_times (Fin a) (Fin b) = Fin (a * b)"
| "js_times _ _ = NaN"

fun Math_abs :: "int jsnum \<Rightarrow> int jsnum" where
  "Math_abs (Fin a) = Fin \<bar>a\<bar>"
| "Math_abs NaN = NaN"

text \<open>\<^verbatim>\<open>Math.floor(x / c)\<close> for a positive integer literal c.\<close>

fun floor_quot :: "int jsnum \<Rightarrow> int \<Rightarrow> int jsnum" where
  "floor_quot (Fin a) c = Fin (a div c)"
| "floor_quot NaN c = NaN"

fun js_gt :: "int jsnum \<Rightarrow> int jsnum \<Rightarrow> bool" where
  "js_gt (Fin a) (Fin b) = (b < a)"
| "js_gt _ _ = False"

text \<open>\<^verbatim>\<open>x !== y\<close> on two numbers: NaN differs from everything.\<close>

fun num_neq :: "int jsnum \<Rightarrow> int jsnum \<Rightarrow> bool" where
  "num_neq (Fin a) (Fin b) = (a \<noteq> b)"
| "num_neq _ _ = True"

subsection \<open>Numbers in template literals\<close>

definition digit_char :: "nat \<Rightarrow> char" where
  "digit_char d = ''0123456789'' ! d"

text \<open>The decimal digits of a non-negative integer.\<close>

function digits :: "int \<Rightarrow> string" where
  "digits n = (if n < 10 then [digit_char (nat n)]
               else digits (n div 10) @ [digit_char (nat (n mod 10))])"
  by pat_completeness auto
termination
  by (relation "measure nat") auto

declare digits.simps [simp del]

definition show_int :: "int \<Rightarrow> string" where
  "show_int i = (if i < 0 then CHR ''-'' # digits (- i) else digits i)"

fun js_toString :: "int jsnum \<Rightarrow> string" where
  "js_toString NaN = ''NaN''"
| "js_toString (Fin i) = show_int i"

section \<open>The host: dates and their locale-aware rendering\<close>

text \<open>
  \<^verbatim>\<open>new Date(ms)\<close> holds a time value in milliseconds since the epoch, or is an
  invalid date when the argument is NaN or beyond 8.64e15 in magnitude.
\<close>

datatype jsdate = InvalidDate | DateMs int

fun newDate :: "int jsnum \<Rightarrow> jsdate" where
  "newDate NaN = InvalidDate"
| "newDate (Fin ms) = (if \<bar>ms\<bar> \<le> 8640000000000000 then DateMs ms else InvalidDate)"

text \<open>The options object passed to the rendering methods; an absent key is \<open>None\<close>.\<close>

record dateOptions =
  year :: "string option"
  month :: "string option"
  day :: "string option"
  hour :: "string option"
  minute :: "string option"

text \<open>
  \<^verbatim>\<open>Date.prototype.toLocaleDateString\<close> and \<^verbatim>\<open>toLocaleString\<close> belong to the
  JavaScript runtime (they depend on its locale data and time zone), so the formatters
  take them as a parameter.
\<close>

record host =
  toLocaleDateString :: "jsdate \<Rightarrow> string \<Rightarrow> dateOptions \<Rightarrow> string"
  toLocaleString :: "jsdate \<Rightarrow> string \<Rightarrow> dateOptions \<Rightarrow> string"

section \<open>dateFormatter.js\<close>

text \<open>The em dash U+2014 returned for a missing timestamp, as its UTF-8 bytes.\<close>

definition placeholder :: string where
  "placeholder = [CHR 0xE2, CHR 0x80, CHR 0x94]"

text \<open>A parameter with a default value: \<open>None\<close> is an omitted argument.\<close>

definition default_locale :: "string option \<Rightarrow> string" where
  "default_locale arg = (case arg of None \<Rightarrow> ''en-US'' | Some l \<Rightarrow> l)"

definition formatDate :: "host \<Rightarrow> int jsval \<Rightarrow> string option \<Rightarrow> string" where
  "formatDate h timestamp locale_arg =
     (let locale = default_locale locale_arg in
      if \<not> truthy timestamp \<and> strict_neq timestamp 0 then placeholder
      else
        let date = newDate (js_times (Number timestamp) (Fin 1000)) in
        toLocaleDateString h date locale
          \<lparr>year = Some ''numeric'', month = Some ''short'', day = Some ''numeric'',
           hour = None, minute = None\<rparr>)"

definition formatDateTime :: "host \<Rightarrow> int jsval \<Rightarrow> string option \<Rightarrow> string" where
  "formatDateTime h timestamp locale_arg =
     (let locale = default_locale locale_arg in
      if \<not> truthy timestamp \<and> strict_neq timestamp 0 then placeholder
      else
        let date = newDate (js_times (Number timestamp) (Fin 1000)) in
        toLocaleString h date locale
          \<lparr>year = Some ''numeric'', month = Some ''short'', day = Some ''numeric'',
           hour = Some ''numeric'', minute = Some ''2-digit''\<rparr>)"

text \<open>
  \<open>dateNow\<close> is the value \<^verbatim>\<open>Date.now()\<close> returns during the call: milliseconds since
  the epoch.
\<close>

definition formatRelativeTime :: "int \<Rightarrow> int jsval \<Rightarrow> string" where
  "formatRelativeTime dateNow timestamp =
     (if \<not> truthy timestamp then placeholder
      else
        let now = floor_quot (Fin dateNow) 1000;
            diff = js_minus (Number timestamp) now;
            absDiff = Math_abs diff;
            minutes = floor_quot absDiff 60;
            hours = floor_quot absDiff 3600;
            days = floor_quot absDiff 86400
        in
        if js_gt diff (Fin 0) then
          if js_gt days (Fin 0) then
            js_toString days @ '' day'' @ (if num_neq days (Fin 1) then ''s'' else '''') @ '' left''
          else if js_gt hours (Fin 0) then
            js_toString hours @ '' hour'' @ (if num_neq hours (Fin 1) then ''s'' else '''') @ '' left''
          else
            js_toString minutes @ '' minute'' @ (if num_neq minutes (Fin 1) then ''s'' else '''')
              @ '' left''
        else
          if js_gt days (Fin 0) then
            ''Ended '' @ js_toString days @ '' day'' @ (if num_neq days (Fin 1) then ''s'' else '''')
              @ '' ago''
          else if js_gt hours (Fin 0) then
            ''Ended '' @ js_toString hours @ '' hour''
              @ (if num_neq hours (Fin 1) then ''s'' else '''') @ '' ago''
          else
            ''Ended '' @ js_toString minutes @ '' minute''
              @ (if num_neq minutes (Fin 1) then ''s'' else '''') @ '' ago'')"

definition isExpired :: "int \<Rightarrow> int jsval \<Rightarrow> bool" where
  "isExpired dateNow timestamp =
     (if \<not> truthy timestamp then False
      else js_gt (floor_quot (Fin dateNow) 1000) (Number timestamp))"

section \<open>A reference host: en-US in the UTC time zone\<close>

text \<open>
  A concrete runtime for evaluating the formatters: the proleptic Gregorian calendar in
  UTC, rendered the way the en-US locale data does for the two option sets above.
\<close>

definition civil_from_days :: "int \<Rightarrow> int \<times> int \<times> int" where
  "civil_from_days z0 =
     (let z = z0 + 719468;
          era = z div 146097;
          doe = z - era * 146097;
          yoe = (doe - doe div 1460 + doe div 36524 - doe div 146096) div 365;
          doy = doe - (365 * yoe + yoe div 4 - yoe div 100);
          mp = (5 * doy + 2) div 153;
          d = doy - (153 * mp + 2) div 5 + 1;
          m = (if mp < 10 then mp + 3 else mp - 9);
          y = yoe + era * 400 + (if m \<le> 2 then 1 else 0)
      in (y, m, d))"

definition month_short :: "int \<Rightarrow> string" where
  "month_short m =
     [''Jan'', ''Feb'', ''Mar'', ''Apr'', ''May'', ''Jun'',
      ''Jul'', ''Aug'', ''Sep'', ''Oct'', ''Nov'', ''Dec''] ! nat (m - 1)"

definition en_US_date :: "int \<Rightarrow> string" where
  "en_US_date ms =
     (case civil_from_days (ms div 86400000) of
        (y, m, d) \<Rightarrow> month_short m @ '' '' @ show_int d @ '', '' @ show_int y)"

definition two_digit :: "int \<Rightarrow> string" where
  "two_digit n = (if n < 10 then ''0'' @ show_int n else show_int n)"

definition en_US_time :: "int \<Rightarrow> string" where
  "en_US_time ms =
     (let s = (ms mod 86400000) div 1000;
          h = s div 3600;
          mi = (s mod 3600) div 60;
          h12 = (if h mod 12 = 0 then 12 else h mod 12)
      in show_int h12 @ '':'' @ two_digit mi @ (if h < 12 then '' AM'' else '' PM''))"

definition utc_en_US :: host where
  "utc_en_US =
     \<lparr>toLocaleDateString = (\<lambda>d locale opts.
        case d of InvalidDate \<Rightarrow> ''Invalid Date'' | DateMs ms \<Rightarrow> en_US_date ms),
      toLocaleString = (\<lambda>d locale opts.
        case d of InvalidDate \<Rightarrow> ''Invalid Date''
        | DateMs ms \<Rightarrow> en_US_date ms @ '', '' @ en_US_time ms)\<rparr>"

section \<open>The relative-time rule in the specification's words\<close>

text \<open>
  The unit cascade as the specification words it, to be compared with
  \<open>formatRelativeTime\<close>: \<open>N unit(s)\<close>, plural exactly when N is not 1; days first, then
  hours, then minutes, the minutes rendered even when zero.
\<close>

definition spec_unit_phrase :: "int \<Rightarrow> string \<Rightarrow> string" where
  "spec_unit_phrase n unit = show_int n @ '' '' @ unit @ (if n \<noteq> 1 then ''s'' else '''')"

definition spec_cascade :: "int \<Rightarrow> string" where
  "spec_cascade diff =
     (if 0 < \<bar>diff\<bar> div 86400 then spec_unit_phrase (\<bar>diff\<bar> div 86400) ''day''
      else if 0 < \<bar>diff\<bar> div 3600 then spec_unit_phrase (\<bar>diff\<bar> div 3600) ''hour''
      else spec_unit_phrase (\<bar>diff\<bar> div 60) ''minute'')"

definition spec_relative :: "int \<Rightarrow> int \<Rightarrow> string" where
  "spec_relative now t =
     (let diff = t - now in
      if 0 < diff then spec_cascade diff @ '' left''
      else ''Ended '' @ spec_cascade diff @ '' ago'')"

section \<open>Doubles\<close>

text \<open>
  The currency formatter computes on doubles. A finite double is given by its rational
  value, and an arithmetic operation returns the rounding \<open>fl\<close> of the exact result:
  to the nearest number with a 53-bit significand, a tie going to the even significand.
  This is the rounding of IEEE 754 binary64 on its normal range (magnitudes from
  \<open>2^-1022\<close> to below \<open>2^1024\<close>); overflow and subnormal numbers are outside the model.
\<close>

definition round_even :: "rat \<Rightarrow> int" where
  "round_even x =
     (let f = \<lfloor>x\<rfloor>; r = x - of_int f in
      if r < 1 / 2 then f else if 1 / 2 < r then f + 1 else if even f then f else f + 1)"

text \<open>The exponent \<open>e\<close> of a positive number: \<open>2^e \<le> x < 2^(e + 1)\<close>.\<close>

definition binade :: "rat \<Rightarrow> int" where
  "binade x =
     (case quotient_of x of
        (p, q) \<Rightarrow> let k = bitlen p - bitlen q in if 2 powi k \<le> x then k else k - 1)"

definition fl :: "rat \<Rightarrow> rat" where
  "fl x =
     (if x = 0 then 0
      else let u = 2 powi (binade \<bar>x\<bar> - 52) in of_int (round_even (x / u)) * u)"

section \<open>Rendering a number with a fixed count of decimals\<close>

text \<open>
  \<^verbatim>\<open>x.toFixed(f)\<close> takes the integer \<open>n\<close> nearest to \<open>x * 10^f\<close> (the larger one of
  two), computed on the exact value of the double, and writes \<open>n\<close> with a decimal point
  before its last \<open>f\<close> digits; a negative \<open>x\<close> is written as \<open>-\<close> and the rendering of
  \<open>-x\<close>. (Values of 1e21 and more, which print in exponent notation, are outside the
  model.)
\<close>

definition round_half_up :: "rat \<Rightarrow> int" where
  "round_half_up x = \<lfloor>x + 1 / 2\<rfloor>"

definition pad_zeros :: "nat \<Rightarrow> string \<Rightarrow> string" where
  "pad_zeros k s = replicate (k - length s) CHR ''0'' @ s"

definition fixed_parts :: "rat \<Rightarrow> nat \<Rightarrow> string \<times> string" where
  "fixed_parts x f =
     (let n = round_half_up (\<bar>x\<bar> * 10 ^ f)
      in (digits (n div 10 ^ f), if f = 0 then '''' else ''.'' @ pad_zeros f (digits (n mod 10 ^ f))))"

definition toFixed :: "rat \<Rightarrow> nat \<Rightarrow> string" where
  "toFixed x f =
     (case fixed_parts x f of
        (whole, fraction) \<Rightarrow> (if x < 0 then ''-'' else '''') @ whole @ fraction)"

text \<open>Grouping separators of the en-US locale: a comma before every three digits.\<close>

function group3 :: "string \<Rightarrow> string" where
  "group3 s =
     (if length s \<le> 3 then s
      else group3 (take (length s - 3) s) @ '','' @ drop (length s - 3) s)"
  by pat_completeness auto
termination
  by (relation "measure length") auto

declare group3.simps [simp del]

text \<open>
  \<^verbatim>\<open>x.toLocaleString("en-US", {minimumFractionDigits: f, maximumFractionDigits: f})\<close>:
  the same digits as \<open>toFixed\<close>, the integer part grouped.
\<close>

definition toLocaleFixed :: "rat \<Rightarrow> nat \<Rightarrow> string" where
  "toLocaleFixed x f =
     (case fixed_parts x f of
        (whole, fraction) \<Rightarrow> (if x < 0 then ''-'' else '''') @ group3 whole @ fraction)"

section \<open>currencyFormatter\<close>

text \<open>
  The source of \<^verbatim>\<open>currencyFormatter\<close> is not among the files of the repository at
  hand: only its test suite is. Its five functions are modelled from the specification
  (section 4.1 and section 7), under the names the test suite imports them by:
  \<open>stroopsToXLM\<close> is the specification's \<open>toMajorUnits\<close> and \<open>xlmToStroops\<close> its
  \<open>toSmallestUnits\<close>. Every expectation of the test suite is checked against the model
  below.
\<close>

text \<open>
  Modelled from the spec: the reading of an amount argument, which the missing source
  of currencyFormatter performs. "Missing or non-numeric monetary amount: treated as
  zero."
\<close>

definition amount_of :: "rat jsval \<Rightarrow> rat" where
  "amount_of v = (case v of Num (Fin x) \<Rightarrow> x | _ \<Rightarrow> 0)"

text \<open>
  Modelled from the spec: the missing function \<open>stroopsToXLM\<close> (\<open>toMajorUnits\<close>).
  "Divides by 10^7. null/undefined/non-numeric input yields 0."
\<close>

definition stroopsToXLM :: "rat jsval \<Rightarrow> rat" where
  "stroopsToXLM stroops = fl (amount_of stroops / 10000000)"

text \<open>
  Modelled from the spec: the missing function \<open>xlmToStroops\<close> (\<open>toSmallestUnits\<close>).
  "Multiplies by 10^7, inverse of the above; null/undefined yields 0."
\<close>

definition xlmToStroops :: "rat jsval \<Rightarrow> rat" where
  "xlmToStroops xlm = fl (amount_of xlm * 10000000)"

text \<open>A parameter with a default value: \<open>None\<close> is an omitted argument.\<close>

definition default_decimals :: "nat option \<Rightarrow> nat" where
  "default_decimals arg = (case arg of None \<Rightarrow> 2 | Some d \<Rightarrow> d)"

definition default_symbol :: "string option \<Rightarrow> string" where
  "default_symbol arg = (case arg of None \<Rightarrow> ''XLM'' | Some s \<Rightarrow> s)"

text \<open>
  Modelled from the spec: the missing function \<open>formatCurrency\<close>. "Converts to major
  units, renders with exactly \<open>decimals\<close> fractional digits and thousands-group
  separators, followed by a space and \<open>symbol\<close>. null/undefined amount yields
  \<open>0.00 <symbol>\<close> using the default decimals (2)."
\<close>

definition formatCurrency :: "rat jsval \<Rightarrow> nat option \<Rightarrow> string option \<Rightarrow> string" where
  "formatCurrency stroops decimals_arg symbol_arg =
     (let decimals = default_decimals decimals_arg;
          symbol = default_symbol symbol_arg
      in if stroops = Null \<or> stroops = Undefined then ''0.00 '' @ symbol
         else toLocaleFixed (stroopsToXLM stroops) decimals @ '' '' @ symbol)"

text \<open>
  Modelled from the spec: the missing function \<open>formatCompact\<close>. "Converts to major
  units; if \<open>\<ge> 1,000,000\<close> renders as \<open>{value/1e6 at 2 decimals}M {symbol}\<close>; else if
  \<open>\<ge> 1,000\<close> renders as \<open>{value/1e3 at 2 decimals}K {symbol}\<close>; else renders as
  \<open>formatCurrency\<close> with 2 decimals. null/undefined yields \<open>0 {symbol}\<close>. Symbol defaults
  to XLM."
\<close>

definition formatCompact :: "rat jsval \<Rightarrow> string option \<Rightarrow> string" where
  "formatCompact stroops symbol_arg =
     (let symbol = default_symbol symbol_arg
      in if stroops = Null \<or> stroops = Undefined then ''0 '' @ symbol
         else
           let xlm = stroopsToXLM stroops
           in if 1000000 \<le> xlm then toFixed (fl (xlm / 1000000)) 2 @ ''M '' @ symbol
              else if 1000 \<le> xlm then toFixed (fl (xlm / 1000)) 2 @ ''K '' @ symbol
              else formatCurrency stroops (Some 2) (Some symbol))"

text \<open>
  A division whose divisor is zero is an outcome of its own: the specification demands
  that \<open>formatProgress\<close> never attempts one.
\<close>

datatype failure = DivisionByZero

definition js_divide :: "rat \<Rightarrow> rat \<Rightarrow> failure + rat" where
  "js_divide x y = (if y = 0 then Inl DivisionByZero else Inr (fl (x / y)))"

text \<open>
  Modelled from the spec: the missing function \<open>formatProgress\<close>. "Computes
  \<open>raised / goal\<close> in major units, clamps to \<open>[0, 1]\<close>, multiplies by 100, renders with
  exactly 2 decimal places followed by \<open>%\<close>. Returns \<open>0.00%\<close> when goal is zero, null, or
  undefined, or when raised is zero." Both arguments are amounts, so a missing or
  non-numeric one counts as zero here as well ("Goal of zero or missing in progress
  calculation: emits \<open>0.00%\<close> rather than dividing by zero").
\<close>

definition formatProgress :: "rat jsval \<Rightarrow> rat jsval \<Rightarrow> failure + string" where
  "formatProgress raised goal =
     (if amount_of goal = 0 \<or> amount_of raised = 0 then Inr ''0.00%''
      else
        case js_divide (stroopsToXLM raised) (stroopsToXLM goal) of
          Inl e \<Rightarrow> Inl e
        | Inr ratio \<Rightarrow>
            let clamped = min (max ratio 0) 1
            in Inr (toFixed (fl (clamped * 100)) 2 @ ''%''))"

section \<open>Properties of dateFormatter.js\<close>

subsection \<open>The guards\<close>

lemma formatDate_zero:
  "formatDate h (Num (Fin 0)) loc =
     toLocaleDateString h (DateMs 0) (default_locale loc)
       \<lparr>year = Some ''numeric'', month = Some ''short'', day = Some ''numeric'',
        hour = None, minute = None\<rparr>"
  by (simp add: formatDate_def strict_neq_def)

lemma formatDateTime_zero:
  "formatDateTime h (Num (Fin 0)) loc =
     toLocaleString h (DateMs 0) (default_locale loc)
       \<lparr>year = Some ''numeric'', month = Some ''short'', day = Some ''numeric'',
        hour = Some ''numeric'', minute = Some ''2-digit''\<rparr>"
  by (simp add: formatDateTime_def strict_neq_def)

lemma formatDate_nonzero:
  "t \<noteq> 0 \<Longrightarrow> formatDate h (Num (Fin t)) loc =
     toLocaleDateString h (newDate (Fin (t * 1000))) (default_locale loc)
       \<lparr>year = Some ''numeric'', month = Some ''short'', day = Some ''numeric'',
        hour = None, minute = None\<rparr>"
  by (simp add: formatDate_def Let_def)

lemma formatDateTime_nonzero:
  "t \<noteq> 0 \<Longrightarrow> formatDateTime h (Num (Fin t)) loc =
     toLocaleString h (newDate (Fin (t * 1000))) (default_locale loc)
       \<lparr>year = Some ''numeric'', month = Some ''short'', day = Some ''numeric'',
        hour = Some ''numeric'', minute = Some ''2-digit''\<rparr>"
  by (simp add: formatDateTime_def Let_def)

lemma formatDate_missing:
  "formatDate h Undefined loc = placeholder \<and> formatDate h Null loc = placeholder
   \<and> formatDate h (Num NaN) loc = placeholder"
  by (simp add: formatDate_def strict_neq_def)

subsection \<open>The reference host never renders the placeholder\<close>

lemma placeholder_no_space: "CHR '' '' \<notin> set placeholder"
  by (simp add: placeholder_def)

lemma en_US_date_has_space: "CHR '' '' \<in> set (en_US_date ms)"
  by (cases "civil_from_days (ms div 86400000)") (simp add: en_US_date_def)

lemma utc_en_US_date_not_placeholder: "toLocaleDateString utc_en_US d l opts \<noteq> placeholder"
proof (cases d)
  case InvalidDate
  then show ?thesis by (simp add: utc_en_US_def placeholder_def)
next
  case (DateMs ms)
  have "CHR '' '' \<in> set (toLocaleDateString utc_en_US d l opts)"
    using DateMs en_US_date_has_space by (simp add: utc_en_US_def)
  then show ?thesis using placeholder_no_space by metis
qed

lemma utc_en_US_datetime_not_placeholder: "toLocaleString utc_en_US d l opts \<noteq> placeholder"
proof (cases d)
  case InvalidDate
  then show ?thesis by (simp add: utc_en_US_def placeholder_def)
next
  case (DateMs ms)
  have "CHR '' '' \<in> set (toLocaleString utc_en_US d l opts)"
    using DateMs en_US_date_has_space by (simp add: utc_en_US_def)
  then show ?thesis using placeholder_no_space by metis
qed

lemma epoch_date: "en_US_date 0 = ''Jan 1, 1970''"
  by code_simp

lemma epoch_time: "en_US_time 0 = ''12:00 AM''"
  by code_simp

lemma day_before_epoch_date: "en_US_date (- 86400000) = ''Dec 31, 1969''"
  by code_simp

lemma day_before_epoch_time: "en_US_time (- 86400000) = ''12:00 AM''"
  by code_simp

subsection \<open>Relative time\<close>

text \<open>
  C3. For a non-falsy timestamp \<open>t\<close> and \<open>now = floor (Date.now() / 1000)\<close>,
  \<open>formatRelativeTime\<close> is the specification's rule: with \<open>diff = t - now\<close>, the largest
  applicable unit among days, hours and minutes of \<open>|diff|\<close> (days first, then hours,
  then minutes, also when they are 0), as \<open>N unit(s)\<close> with the plural exactly when N is
  not 1, followed by \<open>left\<close> when \<open>diff > 0\<close>, and between \<open>Ended\<close> and \<open>ago\<close> when
  \<open>diff \<le> 0\<close>.
\<close>

theorem formatRelativeTime_cascade:
  assumes "t \<noteq> 0"
  shows "formatRelativeTime dateNow (Num (Fin t)) = spec_relative (dateNow div 1000) t"
  using assms
  by (simp add: formatRelativeTime_def spec_relative_def spec_cascade_def spec_unit_phrase_def
      Let_def)

theorem formatRelativeTime_cascade_witness:
  "(1172800::int) \<noteq> 0
   \<and> formatRelativeTime 1000000999 (Num (Fin 1172800)) = ''2 days left''
   \<and> formatRelativeTime 1000000999 (Num (Fin 913600)) = ''Ended 1 day ago''"
  using formatRelativeTime_cascade [of 1172800 1000000999]
    formatRelativeTime_cascade [of 913600 1000000999]
  by (simp add: spec_relative_def spec_cascade_def spec_unit_phrase_def show_int_def
      digits.simps digit_char_def)

subsection \<open>Expiry\<close>

text \<open>
  C4. \<open>isExpired\<close> is false for every falsy timestamp (0, null and undefined among
  them); for a non-falsy timestamp \<open>t\<close> it is true exactly when the current second is
  strictly after \<open>t\<close>, so a timestamp equal to the current second is not expired.
\<close>

theorem isExpired_strict:
  "(\<not> truthy v \<longrightarrow> isExpired dateNow v = False)
   \<and> isExpired dateNow (Num (Fin 0)) = False
   \<and> isExpired dateNow Null = False
   \<and> isExpired dateNow Undefined = False
   \<and> (t \<noteq> 0 \<longrightarrow> isExpired dateNow (Num (Fin t)) = (t < dateNow div 1000))
   \<and> (t \<noteq> 0 \<and> t = dateNow div 1000 \<longrightarrow> isExpired dateNow (Num (Fin t)) = False)"
  by (simp add: isExpired_def)

theorem isExpired_strict_witness:
  "\<not> truthy (Num (NaN::int jsnum)) \<and> isExpired 1000000999 (Num NaN) = False
   \<and> isExpired 1000000999 (Num (Fin 999999)) = True
   \<and> isExpired 1000000999 (Num (Fin 1000000)) = False
   \<and> isExpired 1000000999 (Num (Fin 1000001)) = False"
  using isExpired_strict [of "Num NaN" 1000000999 999999]
    isExpired_strict [of "Num NaN" 1000000999 1000000]
    isExpired_strict [of "Num NaN" 1000000999 1000001]
  by simp

subsection \<open>The zero timestamp\<close>

text \<open>
  C5. The timestamp 0 passes the guard of \<open>formatDate\<close> and of \<open>formatDateTime\<close>: the
  result is what the host renders for the date of the epoch (on the en-US host in UTC,
  \<open>Jan 1, 1970\<close> and \<open>Jan 1, 1970, 12:00 AM\<close>), not the placeholder, while
  \<open>formatRelativeTime\<close> returns the placeholder for it.
\<close>

theorem zero_timestamp_asymmetry:
  "formatDate h (Num (Fin 0)) loc =
     toLocaleDateString h (DateMs 0) (default_locale loc)
       \<lparr>year = Some ''numeric'', month = Some ''short'', day = Some ''numeric'',
        hour = None, minute = None\<rparr>
   \<and> formatDateTime h (Num (Fin 0)) loc =
     toLocaleString h (DateMs 0) (default_locale loc)
       \<lparr>year = Some ''numeric'', month = Some ''short'', day = Some ''numeric'',
        hour = Some ''numeric'', minute = Some ''2-digit''\<rparr>
   \<and> formatDate utc_en_US (Num (Fin 0)) None = ''Jan 1, 1970''
   \<and> formatDateTime utc_en_US (Num (Fin 0)) None = ''Jan 1, 1970, 12:00 AM''
   \<and> formatDate utc_en_US (Num (Fin 0)) None \<noteq> placeholder
   \<and> formatDateTime utc_en_US (Num (Fin 0)) None \<noteq> placeholder
   \<and> formatRelativeTime dateNow (Num (Fin 0)) = placeholder"
proof -
  have e: "formatDate utc_en_US (Num (Fin 0)) None = ''Jan 1, 1970''"
    by (simp add: formatDate_zero utc_en_US_def epoch_date)
  have f: "formatDateTime utc_en_US (Num (Fin 0)) None = ''Jan 1, 1970, 12:00 AM''"
    by (simp add: formatDateTime_zero utc_en_US_def epoch_date epoch_time)
  have g: "formatRelativeTime dateNow (Num (Fin 0)) = placeholder"
    by (simp add: formatRelativeTime_def)
  have e': "formatDate utc_en_US (Num (Fin 0)) None \<noteq> placeholder"
    unfolding e by (simp add: placeholder_def)
  have f': "formatDateTime utc_en_US (Num (Fin 0)) None \<noteq> placeholder"
    unfolding f by (simp add: placeholder_def)
  show ?thesis
    using formatDate_zero formatDateTime_zero e f e' f' g by blast
qed

subsection \<open>The deadline second\<close>

text \<open>
  C9. When the non-falsy timestamp \<open>t\<close> is the current second, \<open>formatRelativeTime\<close>
  takes the past branch and returns \<open>Ended 0 minutes ago\<close>, while \<open>isExpired\<close> is still
  false; it becomes true one second later.
\<close>

theorem deadline_second_disagreement:
  assumes "t \<noteq> 0" and "dateNow div 1000 = t"
  shows "formatRelativeTime dateNow (Num (Fin t)) = ''Ended 0 minutes ago''
    \<and> \<not> isExpired dateNow (Num (Fin t))
    \<and> isExpired (dateNow + 1000) (Num (Fin t))"
  using assms
  by (simp add: formatRelativeTime_def isExpired_def Let_def show_int_def digits.simps
      digit_char_def)

theorem deadline_second_disagreement_witness:
  "(1000000::int) \<noteq> 0 \<and> (1000000999::int) div 1000 = 1000000
   \<and> formatRelativeTime 1000000999 (Num (Fin 1000000)) = ''Ended 0 minutes ago''
   \<and> \<not> isExpired 1000000999 (Num (Fin 1000000))
   \<and> isExpired (1000000999 + 1000) (Num (Fin 1000000))"
  using deadline_second_disagreement [of 1000000 1000000999]
  by simp

subsection \<open>Negative timestamps\<close>

text \<open>
  C10. A negative timestamp passes the guard of \<open>formatDate\<close> and of
  \<open>formatDateTime\<close>: the result is what the host renders for the date \<open>t * 1000\<close>
  milliseconds before the epoch (a valid date down to \<open>t = -8640000000000\<close>), and on the
  en-US host in UTC it is never the placeholder.
\<close>

theorem negative_timestamp_rendered:
  assumes "t < 0"
  shows "formatDate h (Num (Fin t)) loc =
     toLocaleDateString h (newDate (Fin (t * 1000))) (default_locale loc)
       \<lparr>year = Some ''numeric'', month = Some ''short'', day = Some ''numeric'',
        hour = None, minute = None\<rparr>
   \<and> formatDateTime h (Num (Fin t)) loc =
     toLocaleString h (newDate (Fin (t * 1000))) (default_locale loc)
       \<lparr>year = Some ''numeric'', month = Some ''short'', day = Some ''numeric'',
        hour = Some ''numeric'', minute = Some ''2-digit''\<rparr>
   \<and> (- 8640000000000 \<le> t \<longrightarrow> newDate (Fin (t * 1000)) = DateMs (t * 1000))
   \<and> formatDate utc_en_US (Num (Fin t)) loc \<noteq> placeholder
   \<and> formatDateTime utc_en_US (Num (Fin t)) loc \<noteq> placeholder"
proof -
  have nz: "t \<noteq> 0" using assms by simp
  have r: "- 8640000000000 \<le> t \<longrightarrow> newDate (Fin (t * 1000)) = DateMs (t * 1000)"
    using assms by simp
  have p: "formatDate utc_en_US (Num (Fin t)) loc \<noteq> placeholder"
    by (simp add: formatDate_nonzero [OF nz] utc_en_US_date_not_placeholder)
  have q: "formatDateTime utc_en_US (Num (Fin t)) loc \<noteq> placeholder"
    by (simp add: formatDateTime_nonzero [OF nz] utc_en_US_datetime_not_placeholder)
  show ?thesis
    using formatDate_nonzero [OF nz] formatDateTime_nonzero [OF nz] r p q by blast
qed

theorem negative_timestamp_rendered_witness:
  "(- 86400::int) < 0
   \<and> formatDate utc_en_US (Num (Fin (- 86400))) None = ''Dec 31, 1969''
   \<and> formatDateTime utc_en_US (Num (Fin (- 86400))) None = ''Dec 31, 1969, 12:00 AM''
   \<and> formatDate utc_en_US (Num (Fin (- 86400))) None \<noteq> placeholder
   \<and> formatDateTime utc_en_US (Num (Fin (- 86400))) None \<noteq> placeholder"
proof -
  have neg: "(- 86400::int) < 0" by simp
  note r = negative_timestamp_rendered [OF neg, of utc_en_US None]
  have a: "formatDate utc_en_US (Num (Fin (- 86400))) None = ''Dec 31, 1969''"
    using r by (simp add: utc_en_US_def day_before_epoch_date)
  have b: "formatDateTime utc_en_US (Num (Fin (- 86400))) None = ''Dec 31, 1969, 12:00 AM''"
    using r by (simp add: utc_en_US_def day_before_epoch_date day_before_epoch_time)
  show ?thesis using neg a b r by blast
qed

section \<open>Properties of the rounding of doubles\<close>

lemma round_even_floor: "\<lfloor>x\<rfloor> \<le> round_even x \<and> round_even x \<le> \<lfloor>x\<rfloor> + 1"
  by (simp add: round_even_def Let_def)

lemma round_even_error: "\<bar>of_int (round_even x) - x\<bar> \<le> 1 / 2"
proof -
  have "of_int \<lfloor>x\<rfloor> \<le> x" and "x < of_int \<lfloor>x\<rfloor> + 1"
    by linarith+
  then show ?thesis
    by (auto simp: round_even_def Let_def)
qed

lemma round_even_of_int: "round_even (of_int n) = n"
  by (simp add: round_even_def)

lemma round_even_mono:
  assumes "x \<le> y"
  shows "round_even x \<le> round_even y"
proof (cases "\<lfloor>x\<rfloor> = \<lfloor>y\<rfloor>")
  case True
  then have "x - of_int \<lfloor>x\<rfloor> \<le> y - of_int \<lfloor>y\<rfloor>"
    using assms by simp
  then show ?thesis
    using True by (auto simp: round_even_def Let_def)
next
  case False
  then have "\<lfloor>x\<rfloor> + 1 \<le> \<lfloor>y\<rfloor>"
    using floor_mono [OF assms] by linarith
  then show ?thesis
    using round_even_floor [of x] round_even_floor [of y] by linarith
qed

lemma bitlen_rat_bounds:
  assumes "0 < p"
  shows "2 powi (bitlen p - 1) \<le> (of_int p :: rat)" and "(of_int p :: rat) < 2 powi bitlen p"
proof -
  have b1: "1 \<le> bitlen p"
    using assms bitlen_eq_zero_iff [of p] bitlen_nonneg [of p] by linarith
  have lo: "2 ^ nat (bitlen p - 1) \<le> p" and hi: "p < 2 ^ nat (bitlen p)"
    using bitlen_bounds [OF assms] by auto
  have "(of_int (2 ^ nat (bitlen p - 1)) :: rat) \<le> of_int p"
    using lo by (simp only: of_int_le_iff)
  then show "2 powi (bitlen p - 1) \<le> (of_int p :: rat)"
    using b1 by (simp add: power_int_nonneg_exp)
  have "(of_int p :: rat) < of_int (2 ^ nat (bitlen p))"
    using hi by (simp only: of_int_less_iff)
  then show "(of_int p :: rat) < 2 powi bitlen p"
    using b1 by (simp add: power_int_nonneg_exp)
qed

lemma binade_bounds:
  assumes "0 < x"
  shows "2 powi binade x \<le> x" and "x < 2 powi (binade x + 1)"
proof -
  obtain p q where pq: "quotient_of x = (p, q)"
    by (cases "quotient_of x")
  have q: "0 < q"
    using quotient_of_denom_pos [OF pq] .
  have x: "x = of_int p / of_int q"
    using quotient_of_div [OF pq] .
  have p: "0 < p"
    using assms q unfolding x by (simp add: zero_less_divide_iff)
  define k where "k = bitlen p - bitlen q"
  have Q: "(0::rat) < of_int q" using q by simp
  have "x < 2 powi bitlen p / of_int q"
    unfolding x using bitlen_rat_bounds(2) [OF p] Q by (simp add: divide_strict_right_mono)
  also have "\<dots> \<le> 2 powi bitlen p / 2 powi (bitlen q - 1)"
    using bitlen_rat_bounds(1) [OF q] by (simp add: frac_le)
  also have "\<dots> = 2 powi (k + 1)"
    by (simp add: k_def power_int_diff [symmetric] algebra_simps)
  finally have hi: "x < 2 powi (k + 1)" .
  have "2 powi (k - 1) = (2::rat) powi (bitlen p - 1) / 2 powi bitlen q"
    by (simp add: k_def power_int_diff [symmetric] algebra_simps)
  also have "\<dots> \<le> of_int p / 2 powi bitlen q"
    using bitlen_rat_bounds(1) [OF p] by (simp add: divide_right_mono)
  also have "\<dots> \<le> x"
    unfolding x using bitlen_rat_bounds(2) [OF q] p Q by (simp add: frac_le)
  finally have lo: "2 powi (k - 1) \<le> x" .
  have b: "binade x = (if 2 powi k \<le> x then k else k - 1)"
    by (simp add: binade_def pq k_def Let_def)
  show "2 powi binade x \<le> x"
    using lo by (simp add: b)
  show "x < 2 powi (binade x + 1)"
    using hi by (auto simp: b)
qed

lemma powi_two_less_cancel:
  assumes "(2::rat) powi a < 2 powi b"
  shows "a < b"
proof (rule ccontr)
  assume "\<not> a < b"
  then have "(2::rat) powi b \<le> 2 powi a"
    by (simp add: power_int_increasing)
  then show False using assms by simp
qed

lemma binade_mono:
  assumes "0 < x" and "x \<le> y"
  shows "binade x \<le> binade y"
proof -
  have "0 < y" using assms by simp
  have "2 powi binade x \<le> x"
    using binade_bounds(1) [OF assms(1)] .
  also have "x \<le> y" by fact
  also have "y < 2 powi (binade y + 1)"
    using binade_bounds(2) [OF \<open>0 < y\<close>] .
  finally show ?thesis
    using powi_two_less_cancel by fastforce
qed

lemma fl_error: "\<bar>fl x - x\<bar> \<le> \<bar>x\<bar> / 2 ^ 53"
proof (cases "x = 0")
  case True
  then show ?thesis by (simp add: fl_def)
next
  case False
  define u :: rat where "u = 2 powi (binade \<bar>x\<bar> - 52)"
  have u: "0 < u" by (simp add: u_def)
  have ax: "0 < \<bar>x\<bar>" using False by simp
  have "u * 2 ^ 52 = 2 powi binade \<bar>x\<bar>"
    by (simp add: u_def power_int_diff)
  then have ule: "u * 2 ^ 52 \<le> \<bar>x\<bar>"
    using binade_bounds(1) [OF ax] by simp
  have "fl x - x = u * (of_int (round_even (x / u)) - x / u)"
    using False u by (simp add: fl_def u_def Let_def algebra_simps)
  then have "\<bar>fl x - x\<bar> = u * \<bar>of_int (round_even (x / u)) - x / u\<bar>"
    using u by (simp add: abs_mult)
  also have "\<dots> \<le> u * (1 / 2)"
    using round_even_error [of "x / u"] u by (simp only: mult_le_cancel_left_pos)
  also have "\<dots> \<le> \<bar>x\<bar> / 2 ^ 53"
    using ule by simp
  finally show ?thesis .
qed

lemma fl_pos:
  assumes "0 < x"
  shows "0 < fl x"
proof -
  have "\<bar>x\<bar> / 2 ^ 53 < x" using assms by simp
  then show ?thesis using fl_error [of x] by linarith
qed

lemma fl_nonzero:
  assumes "x \<noteq> 0"
  shows "fl x \<noteq> 0"
proof -
  have "\<bar>x\<bar> / 2 ^ 53 < \<bar>x\<bar>" using assms by simp
  then show ?thesis using fl_error [of x] by linarith
qed

lemma fl_binade_bounds:
  assumes "0 < x"
  shows "2 powi binade x \<le> fl x" and "fl x \<le> 2 powi (binade x + 1)"
proof -
  define u :: rat where "u = 2 powi (binade x - 52)"
  have u: "0 < u" by (simp add: u_def)
  have lo: "u * 2 ^ 52 = 2 powi binade x"
    by (simp add: u_def power_int_diff)
  have hi: "u * 2 ^ 53 = 2 powi (binade x + 1)"
    by (simp add: u_def power_int_diff power_int_add)
  have f: "fl x = of_int (round_even (x / u)) * u"
    using assms by (simp add: fl_def u_def Let_def)
  have "2 ^ 52 \<le> x / u"
    using binade_bounds(1) [OF assms] u lo by (simp add: pos_le_divide_eq mult.commute)
  then have "round_even (of_int (2 ^ 52)) \<le> round_even (x / u)"
    by (intro round_even_mono) simp
  then have "(2 ^ 52 :: rat) \<le> of_int (round_even (x / u))"
    unfolding round_even_of_int by (metis of_int_le_iff of_int_numeral of_int_power)
  then have "2 ^ 52 * u \<le> of_int (round_even (x / u)) * u"
    using u by (simp only: mult_le_cancel_right_pos)
  then show "2 powi binade x \<le> fl x"
    using lo by (simp add: f mult.commute)
  have "x / u \<le> 2 ^ 53"
    using binade_bounds(2) [OF assms] u hi by (simp add: pos_divide_le_eq mult.commute)
  then have "round_even (x / u) \<le> round_even (of_int (2 ^ 53))"
    by (intro round_even_mono) simp
  then have "of_int (round_even (x / u)) \<le> (2 ^ 53 :: rat)"
    unfolding round_even_of_int by (metis of_int_le_iff of_int_numeral of_int_power)
  then have "of_int (round_even (x / u)) * u \<le> 2 ^ 53 * u"
    using u by (simp only: mult_le_cancel_right_pos)
  then show "fl x \<le> 2 powi (binade x + 1)"
    using hi by (simp add: f mult.commute)
qed

lemma fl_mono:
  assumes "0 < x" and "x \<le> y"
  shows "fl x \<le> fl y"
proof (cases "binade x = binade y")
  case True
  have y: "0 < y" using assms by simp
  define u :: rat where "u = 2 powi (binade x - 52)"
  have u: "0 < u" by (simp add: u_def)
  have "x / u \<le> y / u"
    using assms(2) u by (simp add: divide_right_mono)
  then have "round_even (x / u) \<le> round_even (y / u)"
    by (rule round_even_mono)
  then have "(of_int (round_even (x / u)) :: rat) \<le> of_int (round_even (y / u))"
    by simp
  then have "of_int (round_even (x / u)) * u \<le> of_int (round_even (y / u)) * u"
    using u by (simp only: mult_le_cancel_right_pos)
  then show ?thesis
    using assms(1) y True by (simp add: fl_def u_def Let_def)
next
  case False
  have y: "0 < y" using assms by simp
  have "binade x + 1 \<le> binade y"
    using False binade_mono [OF assms] by simp
  then have "(2::rat) powi (binade x + 1) \<le> 2 powi binade y"
    by (simp add: power_int_increasing)
  then show ?thesis
    using fl_binade_bounds(2) [OF assms(1)] fl_binade_bounds(1) [OF y] by linarith
qed

section \<open>Properties of the rendering with fixed decimals\<close>

lemma digits_one: "0 \<le> m \<Longrightarrow> m < 10 \<Longrightarrow> digits m = [digit_char (nat m)]"
  by (simp add: digits.simps)

lemma pad_two_digits:
  assumes "0 \<le> m" and "m < 100"
  shows "pad_zeros 2 (digits m) = [digit_char (nat (m div 10)), digit_char (nat (m mod 10))]"
proof (cases "m < 10")
  case True
  then show ?thesis
    using assms by (simp add: digits_one pad_zeros_def digit_char_def)
next
  case False
  then have "0 \<le> m div 10" and "m div 10 < 10"
    using assms by simp_all
  then have "digits (m div 10) = [digit_char (nat (m div 10))]"
    by (rule digits_one)
  then show ?thesis
    using False by (subst digits.simps) (simp add: pad_zeros_def)
qed

lemma toFixed_two:
  assumes "0 \<le> x"
  shows "toFixed x 2 =
    digits (round_half_up (x * 100) div 100) @ ''.'' @
      [digit_char (nat (round_half_up (x * 100) mod 100 div 10)),
       digit_char (nat (round_half_up (x * 100) mod 10))]"
proof -
  define n where "n = round_half_up (x * 100)"
  have "pad_zeros 2 (digits (n mod 100)) =
      [digit_char (nat (n mod 100 div 10)), digit_char (nat (n mod 100 mod 10))]"
    by (rule pad_two_digits) simp_all
  moreover have "n mod 100 mod 10 = n mod 10"
    by (simp add: mod_mod_cancel)
  ultimately show ?thesis
    using assms by (simp add: toFixed_def fixed_parts_def Let_def n_def)
qed

lemma toFixed_zero: "toFixed 0 2 = ''0.00''"
  by code_simp

lemma toFixed_hundred: "toFixed 100 2 = ''100.00''"
  by code_simp

lemma fl_zero: "fl 0 = 0"
  by (simp add: fl_def)

lemma fl_one: "fl 1 = 1"
  by code_simp

lemma fl_hundred: "fl 100 = 100"
  by code_simp

section \<open>Properties of currencyFormatter\<close>

subsection \<open>The expectations of the test suite\<close>

lemma test_stroopsToXLM:
  "stroopsToXLM (Num (Fin 1)) = fl (1 / 10000000)"
  "stroopsToXLM (Num (Fin 10000000)) = 1"
  "stroopsToXLM (Num (Fin 5000000)) = 1 / 2"
  "stroopsToXLM (Num (Fin 10000000000000000)) = 1000000000"
  "stroopsToXLM Null = 0"
  "stroopsToXLM Undefined = 0"
  "stroopsToXLM (Num (Fin 0)) = 0"
  by code_simp+

lemma test_xlmToStroops:
  "xlmToStroops (Num (Fin 1)) = 10000000"
  "xlmToStroops (Num (Fin (1 / 2))) = 5000000"
  "xlmToStroops (Num (Fin (fl (1 / 10000000)))) = 1"
  "xlmToStroops Null = 0"
  "xlmToStroops (Num (Fin 0)) = 0"
  by code_simp+

lemma test_formatCurrency:
  "formatCurrency (Num (Fin 1)) (Some 7) None = ''0.0000001 XLM''"
  "formatCurrency (Num (Fin 10000000)) None None = ''1.00 XLM''"
  "formatCurrency (Num (Fin 10000000000000000)) None None = ''1,000,000,000.00 XLM''"
  "formatCurrency (Num (Fin 12500000000)) None None = ''1,250.00 XLM''"
  "formatCurrency (Num (Fin 10000000)) (Some 4) None = ''1.0000 XLM''"
  "formatCurrency (Num (Fin 10000000)) (Some 2) (Some ''USDC'') = ''1.00 USDC''"
  "formatCurrency Null None None = ''0.00 XLM''"
  "formatCurrency (Num (Fin 0)) None None = ''0.00 XLM''"
  by code_simp+

lemma test_formatCompact:
  "formatCompact (Num (Fin 15000000000000)) None = ''1.50M XLM''"
  "formatCompact (Num (Fin 10000000000)) None = ''1.00K XLM''"
  "formatCompact (Num (Fin 10000000)) None = ''1.00 XLM''"
  "formatCompact Null None = ''0 XLM''"
  by code_simp+

lemma test_formatProgress:
  "formatProgress (Num (Fin 5000000)) (Num (Fin 10000000)) = Inr ''50.00%''"
  "formatProgress (Num (Fin 10000000)) (Num (Fin 10000000)) = Inr ''100.00%''"
  "formatProgress (Num (Fin 20000000)) (Num (Fin 10000000)) = Inr ''100.00%''"
  "formatProgress (Num (Fin 0)) (Num (Fin 10000000)) = Inr ''0.00%''"
  "formatProgress (Num (Fin 5000000)) (Num (Fin 0)) = Inr ''0.00%''"
  "formatProgress (Num (Fin 5000000)) Null = Inr ''0.00%''"
  by code_simp+

subsection \<open>Progress towards the goal\<close>

lemma stroopsToXLM_pos: "0 < x \<Longrightarrow> 0 < stroopsToXLM (Num (Fin x))"
  by (simp add: stroopsToXLM_def amount_of_def fl_pos)

lemma stroopsToXLM_nonzero: "amount_of v \<noteq> 0 \<Longrightarrow> stroopsToXLM v \<noteq> 0"
  by (simp add: stroopsToXLM_def fl_nonzero)

lemma stroopsToXLM_mono:
  "0 < x \<Longrightarrow> x \<le> y \<Longrightarrow> stroopsToXLM (Num (Fin x)) \<le> stroopsToXLM (Num (Fin y))"
  by (simp add: stroopsToXLM_def amount_of_def fl_mono divide_right_mono)

lemma formatProgress_computed:
  assumes "g \<noteq> 0"
  shows "formatProgress (Num (Fin r)) (Num (Fin g)) =
    Inr (toFixed (fl (min (max (fl (stroopsToXLM (Num (Fin r)) / stroopsToXLM (Num (Fin g)))) 0) 1
      * 100)) 2 @ ''%'')"
proof (cases "r = 0")
  case True
  then show ?thesis
    by (simp add: formatProgress_def amount_of_def stroopsToXLM_def fl_zero toFixed_zero)
next
  case False
  have "stroopsToXLM (Num (Fin g)) \<noteq> 0"
    using assms by (simp add: stroopsToXLM_nonzero amount_of_def)
  then show ?thesis
    using False assms by (simp add: formatProgress_def amount_of_def js_divide_def Let_def)
qed

lemma percent_range: "0 \<le> fl (min (max q 0) 1 * 100) \<and> fl (min (max q 0) 1 * 100) \<le> 100"
proof -
  define c where "c = min (max q 0) 1"
  have c: "0 \<le> c" "c \<le> 1" by (simp_all add: c_def)
  have lo: "0 \<le> fl (c * 100)"
  proof (cases "c = 0")
    case True
    then show ?thesis by (simp add: fl_zero)
  next
    case False
    then have "0 < c * 100" using c by simp
    then show ?thesis using fl_pos [of "c * 100"] by simp
  qed
  have hi: "fl (c * 100) \<le> 100"
  proof (cases "c = 0")
    case True
    then show ?thesis by (simp add: fl_zero)
  next
    case False
    then have "0 < c * 100" and "c * 100 \<le> 100" using c by simp_all
    then have "fl (c * 100) \<le> fl 100" by (rule fl_mono)
    then show ?thesis by (simp add: fl_hundred)
  qed
  show ?thesis using lo hi by (simp add: c_def)
qed

text \<open>
  C1. For numbers \<open>raised\<close> and \<open>goal\<close> with \<open>goal > 0\<close>, \<open>formatProgress\<close> divides the
  two amounts in major units, clamps the quotient to \<open>[0, 1]\<close>, multiplies by 100 and
  renders the percentage (a number from 0 to 100) with a decimal point and exactly two
  digits after it, followed by \<open>%\<close>; and whenever \<open>raised \<ge> goal\<close> the result is
  \<open>100.00%\<close>.
\<close>

theorem formatProgress_clamped:
  assumes "0 < g"
  shows "(let ratio = fl (stroopsToXLM (Num (Fin r)) / stroopsToXLM (Num (Fin g)));
              pct = fl (min (max ratio 0) 1 * 100);
              n = round_half_up (pct * 100)
          in formatProgress (Num (Fin r)) (Num (Fin g)) = Inr (toFixed pct 2 @ ''%'')
             \<and> 0 \<le> pct \<and> pct \<le> 100
             \<and> toFixed pct 2 =
                 digits (n div 100) @ ''.'' @
                   [digit_char (nat (n mod 100 div 10)), digit_char (nat (n mod 10))])
         \<and> (g \<le> r \<longrightarrow> formatProgress (Num (Fin r)) (Num (Fin g)) = Inr ''100.00%'')"
proof -
  define ratio where "ratio = fl (stroopsToXLM (Num (Fin r)) / stroopsToXLM (Num (Fin g)))"
  define pct where "pct = fl (min (max ratio 0) 1 * 100)"
  have g: "g \<noteq> 0" using assms by simp
  have a: "formatProgress (Num (Fin r)) (Num (Fin g)) = Inr (toFixed pct 2 @ ''%'')"
    unfolding pct_def ratio_def by (rule formatProgress_computed [OF g])
  have b: "0 \<le> pct \<and> pct \<le> 100"
    unfolding pct_def by (rule percent_range)
  then have c: "toFixed pct 2 =
      digits (round_half_up (pct * 100) div 100) @ ''.'' @
        [digit_char (nat (round_half_up (pct * 100) mod 100 div 10)),
         digit_char (nat (round_half_up (pct * 100) mod 10))]"
    by (simp add: toFixed_two)
  have d: "formatProgress (Num (Fin r)) (Num (Fin g)) = Inr ''100.00%''" if "g \<le> r"
  proof -
    have mg: "0 < stroopsToXLM (Num (Fin g))"
      using assms by (rule stroopsToXLM_pos)
    have "stroopsToXLM (Num (Fin g)) \<le> stroopsToXLM (Num (Fin r))"
      using assms that by (rule stroopsToXLM_mono)
    then have "1 \<le> stroopsToXLM (Num (Fin r)) / stroopsToXLM (Num (Fin g))"
      using mg by (simp add: pos_le_divide_eq)
    then have "fl 1 \<le> ratio"
      unfolding ratio_def by (intro fl_mono) simp_all
    then have "min (max ratio 0) 1 = 1"
      by (simp add: fl_one)
    then have "pct = 100"
      by (simp add: pct_def fl_hundred)
    then show ?thesis
      using a by (simp add: toFixed_hundred)
  qed
  show ?thesis
    using a b c d by (simp add: Let_def pct_def ratio_def)
qed

theorem formatProgress_clamped_witness:
  "(0::rat) < 10000000
   \<and> formatProgress (Num (Fin 20000000)) (Num (Fin 10000000)) = Inr ''100.00%''
   \<and> formatProgress (Num (Fin 10000000)) (Num (Fin 10000000)) = Inr ''100.00%''
   \<and> formatProgress (Num (Fin 5000000)) (Num (Fin 10000000)) = Inr ''50.00%''"
  using formatProgress_clamped [of 10000000 20000000]
    formatProgress_clamped [of 10000000 10000000] test_formatProgress(1)
  by simp

text \<open>
  C2. Whatever \<open>raised\<close> is, \<open>formatProgress\<close> returns \<open>0.00%\<close> when \<open>goal\<close> is zero,
  null or undefined, and also when \<open>raised\<close> is zero; and no call divides by zero.
\<close>

theorem formatProgress_zero_goal:
  "formatProgress raised (Num (Fin 0)) = Inr ''0.00%''
   \<and> formatProgress raised Null = Inr ''0.00%''
   \<and> formatProgress raised Undefined = Inr ''0.00%''
   \<and> formatProgress (Num (Fin 0)) goal = Inr ''0.00%''
   \<and> formatProgress raised goal \<noteq> Inl DivisionByZero"
proof -
  have "formatProgress raised goal \<noteq> Inl DivisionByZero"
  proof (cases "amount_of goal = 0 \<or> amount_of raised = 0")
    case True
    then show ?thesis by (auto simp: formatProgress_def)
  next
    case False
    then have "stroopsToXLM goal \<noteq> 0"
      by (simp add: stroopsToXLM_nonzero)
    then show ?thesis
      using False by (simp add: formatProgress_def js_divide_def Let_def)
  qed
  then show ?thesis
    by (simp add: formatProgress_def amount_of_def)
qed

subsection \<open>The round trip between the two units\<close>

text \<open>
  C6. For every non-negative integer \<open>a\<close> (a count of smallest units),
  \<open>xlmToStroops (stroopsToXLM a)\<close> recovers \<open>a\<close> up to the rounding of the two double
  operations: the relative error is at most \<open>2^-52 + 2^-106\<close>.
\<close>

theorem roundtrip_within_tolerance:
  assumes "0 \<le> a"
  shows "\<bar>xlmToStroops (Num (Fin (stroopsToXLM (Num (Fin (of_int a)))))) - of_int a\<bar>
    \<le> of_int a / 2 ^ 52 + of_int a / 2 ^ 106"
proof -
  define x :: rat where "x = of_int a"
  define y where "y = fl (x / 10000000)"
  define z where "z = fl (y * 10000000)"
  have x: "0 \<le> x" using assms by (simp add: x_def)
  have e1: "\<bar>y - x / 10000000\<bar> \<le> \<bar>x / 10000000\<bar> / 2 ^ 53"
    unfolding y_def by (rule fl_error)
  have e2: "\<bar>z - y * 10000000\<bar> \<le> \<bar>y * 10000000\<bar> / 2 ^ 53"
    unfolding z_def by (rule fl_error)
  have s1: "\<bar>y * 10000000 - x\<bar> \<le> x / 2 ^ 53"
    using e1 x by (simp add: abs_le_iff field_simps)
  then have y1: "\<bar>y * 10000000\<bar> \<le> x + x / 2 ^ 53"
    using x by linarith
  have "\<bar>z - x\<bar> \<le> \<bar>z - y * 10000000\<bar> + \<bar>y * 10000000 - x\<bar>"
    by simp
  also have "\<dots> \<le> (x + x / 2 ^ 53) / 2 ^ 53 + x / 2 ^ 53"
    using e2 y1 s1 by (simp add: abs_le_iff field_simps)
  also have "\<dots> = x / 2 ^ 52 + x / 2 ^ 106"
    by (simp add: field_simps)
  finally show ?thesis
    by (simp add: x_def z_def y_def xlmToStroops_def stroopsToXLM_def amount_of_def)
qed

lemma roundtrip_21:
  "xlmToStroops (Num (Fin (stroopsToXLM (Num (Fin 21))))) = 21 - 1 / 2 ^ 48"
  by code_simp

theorem roundtrip_within_tolerance_witness:
  "(0::int) \<le> 21
   \<and> xlmToStroops (Num (Fin (stroopsToXLM (Num (Fin 21))))) = 21 - 1 / 2 ^ 48
   \<and> \<bar>xlmToStroops (Num (Fin (stroopsToXLM (Num (Fin 21))))) - 21\<bar> \<le> 21 / 2 ^ 52 + 21 / 2 ^ 106"
  using roundtrip_within_tolerance [of 21] roundtrip_21
  by simp

subsection \<open>Compact amounts\<close>

text \<open>
  C7. For a number, \<open>formatCompact\<close> converts to major units and renders the value
  divided by 1e6 with 2 decimals, \<open>M\<close>, a space and the symbol when the value is at
  least 1,000,000; the value divided by 1e3 with 2 decimals, \<open>K\<close>, a space and the
  symbol when it is at least 1,000; and as \<open>formatCurrency\<close> with 2 decimals otherwise.
  A null or undefined amount gives \<open>0\<close>, a space and the symbol, with no decimals,
  where \<open>formatCurrency\<close> gives \<open>0.00\<close>.
\<close>

theorem formatCompact_cases:
  "formatCompact (Num (Fin x)) sa =
     (let xlm = stroopsToXLM (Num (Fin x)); symbol = default_symbol sa
      in if 1000000 \<le> xlm then toFixed (fl (xlm / 1000000)) 2 @ ''M '' @ symbol
         else if 1000 \<le> xlm then toFixed (fl (xlm / 1000)) 2 @ ''K '' @ symbol
         else formatCurrency (Num (Fin x)) (Some 2) (Some symbol))
   \<and> formatCompact Null sa = ''0 '' @ default_symbol sa
   \<and> formatCompact Undefined sa = ''0 '' @ default_symbol sa
   \<and> formatCurrency Null None sa = ''0.00 '' @ default_symbol sa
   \<and> formatCompact (Num (Fin 15000000000000)) None = ''1.50M XLM''
   \<and> formatCompact (Num (Fin 10000000000)) None = ''1.00K XLM''
   \<and> formatCompact (Num (Fin 10000000)) None = ''1.00 XLM''
   \<and> formatCompact Null None = ''0 XLM''"
proof -
  have "formatCompact (Num (Fin x)) sa =
     (let xlm = stroopsToXLM (Num (Fin x)); symbol = default_symbol sa
      in if 1000000 \<le> xlm then toFixed (fl (xlm / 1000000)) 2 @ ''M '' @ symbol
         else if 1000 \<le> xlm then toFixed (fl (xlm / 1000)) 2 @ ''K '' @ symbol
         else formatCurrency (Num (Fin x)) (Some 2) (Some symbol))"
    by (simp add: formatCompact_def Let_def)
  moreover have "formatCompact Null sa = ''0 '' @ default_symbol sa"
    and "formatCompact Undefined sa = ''0 '' @ default_symbol sa"
    by (simp_all add: formatCompact_def)
  moreover have "formatCurrency Null None sa = ''0.00 '' @ default_symbol sa"
    by (simp add: formatCurrency_def)
  ultimately show ?thesis
    using test_formatCompact by blast
qed

subsection \<open>The zero fallback of formatCurrency\<close>

text \<open>
  C8. Whatever the decimals argument and the symbol are, \<open>formatCurrency\<close> of a null or
  undefined amount is \<open>0.00\<close>, a space and the symbol: the two decimals of the default,
  not those of the argument, which a zero amount does follow.
\<close>

theorem formatCurrency_missing:
  "formatCurrency Null d s = ''0.00 '' @ default_symbol s
   \<and> formatCurrency Undefined d s = ''0.00 '' @ default_symbol s
   \<and> formatCurrency Null (Some 7) (Some ''USDC'') = ''0.00 USDC''
   \<and> formatCurrency Undefined (Some 0) None = ''0.00 XLM''
   \<and> formatCurrency (Num (Fin 0)) (Some 7) (Some ''USDC'') = ''0.0000000 USDC''"
proof -
  have "formatCurrency (Num (Fin 0)) (Some 7) (Some ''USDC'') = ''0.0000000 USDC''"
    by code_simp
  then show ?thesis
    by (simp add: formatCurrency_def default_symbol_def)
qed


end
